theory Spec2Isabelle
  imports Complex_Main "HOL-Library.Word"
begin

section \<open>Errors\<close>

text \<open>
  Every exception the listings code can raise is a value.  The serializers raise
  \<^verbatim>\<open>serializers.ValidationError\<close>, \<^verbatim>\<open>Booking.clean\<close> and the field validators
  raise Django's \<^verbatim>\<open>ValidationError\<close>; both carry a message and both are the
  specification's ValidationError.  \<^verbatim>\<open>Listing.objects.get\<close> raises
  \<^verbatim>\<open>Listing.DoesNotExist\<close> (the specification's NotFoundError), and a write that
  breaks a declared database constraint raises \<^verbatim>\<open>IntegrityError\<close> (the
  specification's ConflictError for a uniqueness constraint, InvalidStateError for a
  check constraint).
\<close>

datatype db_constraint =
    CheckConstraint string
  | PrimaryKey string
  | UniqueTogether "string list"
  | ForeignKey string

datatype error =
    ValidationError string
  | DoesNotExist
  | IntegrityError db_constraint

section \<open>Python values\<close>

subsection \<open>Strings\<close>

text \<open>
  A Python \<^verbatim>\<open>str\<close> is a sequence of code points.  \<open>str\<close> turns a literal into one.
  \<open>py_isspace\<close> is the set of code points \<^verbatim>\<open>str.strip()\<close> removes.
\<close>

type_synonym pystr = "nat list"

definition str :: "string \<Rightarrow> pystr" where
  "str s = map of_char s"

definition py_isspace :: "nat \<Rightarrow> bool" where
  "py_isspace c =
     ((9 \<le> c \<and> c \<le> 13) \<or> (28 \<le> c \<and> c \<le> 32) \<or> c = 133 \<or> c = 160 \<or> c = 5760
      \<or> (8192 \<le> c \<and> c \<le> 8202) \<or> c = 8232 \<or> c = 8233 \<or> c = 8239 \<or> c = 8287
      \<or> c = 12288)"

text \<open>\<^verbatim>\<open>s.strip()\<close>: drop the whitespace at the left end, then at the right end.\<close>

definition strip :: "pystr \<Rightarrow> pystr" where
  "strip s = rev (dropWhile py_isspace (rev (dropWhile py_isspace s)))"

text \<open>
  \<^verbatim>\<open>s.split(sep)\<close> for a separator of one character: scan from the left, \<open>cur\<close>
  holding (reversed) the characters since the last separator; every separator closes
  a token, and the end of the string closes the last one.
\<close>

fun split_loop :: "'a \<Rightarrow> 'a list \<Rightarrow> 'a list \<Rightarrow> 'a list list" where
  "split_loop sep cur [] = [rev cur]"
| "split_loop sep cur (c # cs) =
     (if c = sep then rev cur # split_loop sep [] cs else split_loop sep (c # cur) cs)"

definition split :: "'a \<Rightarrow> 'a list \<Rightarrow> 'a list list" where
  "split sep s = split_loop sep [] s"

definition comma :: nat where
  "comma = of_char CHR '',''"

text \<open>\<^verbatim>\<open>str(n)\<close> for a non-negative integer, used by the formatted messages.\<close>

definition digit_char :: "nat \<Rightarrow> char" where
  "digit_char d = ''0123456789'' ! d"

function show_nat :: "nat \<Rightarrow> string" where
  "show_nat n =
     (if n < 10 then [digit_char n] else show_nat (n div 10) @ [digit_char (n mod 10)])"
  by pat_completeness auto
termination
  by (relation "measure id") auto

declare show_nat.simps [simp del]

subsection \<open>Dates\<close>

text \<open>
  \<^verbatim>\<open>datetime.date\<close>: a year, a month and a day.  Dates compare as the triples do,
  and the difference of two dates is the difference of their proleptic Gregorian
  ordinals, as a \<^verbatim>\<open>timedelta\<close>.
\<close>

record date =
  year :: int
  month :: int
  day :: int

record timedelta =
  days :: int
  seconds :: int
  microseconds :: int

definition MINYEAR :: int where
  "MINYEAR = 1"

definition MAXYEAR :: int where
  "MAXYEAR = 9999"

definition DAYS_IN_MONTH :: "int list" where
  "DAYS_IN_MONTH = [-1, 31, 28, 31, 30, 31, 30, 31, 31, 30, 31, 30, 31]"

fun running_totals :: "int \<Rightarrow> int list \<Rightarrow> int list" where
  "running_totals dbm [] = []"
| "running_totals dbm (n # ns) = dbm # running_totals (dbm + n) ns"

definition DAYS_BEFORE_MONTH :: "int list" where
  "DAYS_BEFORE_MONTH = -1 # running_totals 0 (tl DAYS_IN_MONTH)"

definition is_leap :: "int \<Rightarrow> bool" where
  "is_leap y = (y mod 4 = 0 \<and> (y mod 100 \<noteq> 0 \<or> y mod 400 = 0))"

definition days_before_year :: "int \<Rightarrow> int" where
  "days_before_year yr = (let y = yr - 1 in y * 365 + y div 4 - y div 100 + y div 400)"

definition days_in_month :: "int \<Rightarrow> int \<Rightarrow> int" where
  "days_in_month y m = (if m = 2 \<and> is_leap y then 29 else DAYS_IN_MONTH ! nat m)"

definition days_before_month :: "int \<Rightarrow> int \<Rightarrow> int" where
  "days_before_month y m =
     DAYS_BEFORE_MONTH ! nat m + (if m > 2 \<and> is_leap y then 1 else 0)"

definition ymd2ord :: "int \<Rightarrow> int \<Rightarrow> int \<Rightarrow> int" where
  "ymd2ord y m d = days_before_year y + days_before_month y m + d"

text \<open>The check every constructed date has passed.\<close>

definition check_date_fields :: "date \<Rightarrow> bool" where
  "check_date_fields d =
     (MINYEAR \<le> year d \<and> year d \<le> MAXYEAR \<and> 1 \<le> month d \<and> month d \<le> 12
      \<and> 1 \<le> day d \<and> day d \<le> days_in_month (year d) (month d))"

definition toordinal :: "date \<Rightarrow> int" where
  "toordinal d = ymd2ord (year d) (month d) (day d)"

definition date_cmp :: "date \<Rightarrow> date \<Rightarrow> int" where
  "date_cmp a b =
     (if year a \<noteq> year b then (if year a > year b then 1 else -1)
      else if month a \<noteq> month b then (if month a > month b then 1 else -1)
      else if day a \<noteq> day b then (if day a > day b then 1 else -1)
      else 0)"

definition date_le :: "date \<Rightarrow> date \<Rightarrow> bool" where
  "date_le a b = (date_cmp a b \<le> 0)"

definition date_gt :: "date \<Rightarrow> date \<Rightarrow> bool" where
  "date_gt a b = (date_cmp a b > 0)"

definition date_sub :: "date \<Rightarrow> date \<Rightarrow> timedelta" where
  "date_sub a b = \<lparr>days = toordinal a - toordinal b, seconds = 0, microseconds = 0\<rparr>"

section \<open>Entities and the store\<close>

text \<open>
  The three models of \<^verbatim>\<open>listings/models.py\<close>, without their two automatic
  timestamps.  A foreign key is the key of the row it refers to; a user is known by
  its id only.
\<close>

type_synonym uuid = "128 word"

record Listing =
  listing_id :: uuid
  title :: pystr
  description :: pystr
  location :: pystr
  price_per_night :: rat
  number_of_bedrooms :: nat
  number_of_bathrooms :: nat
  max_guest_count :: nat
  host :: int
  is_available :: bool
  amenities :: pystr

record Booking =
  booking_id :: uuid
  listing :: uuid
  user :: int
  check_in_date :: date
  check_out_date :: date
  number_of_guests :: nat
  total_price :: rat
  status :: pystr
  special_requests :: pystr

record Review =
  review_id :: uuid
  listing :: uuid
  user :: int
  rating :: nat
  comment :: pystr

record store =
  User_objects :: "int set"
  Listing_objects :: "uuid \<rightharpoonup> Listing"
  Booking_objects :: "Booking list"
  Review_objects :: "Review list"

text \<open>\<^verbatim>\<open>Listing.objects.get(listing_id=...)\<close>\<close>

definition Listing_objects_get :: "store \<Rightarrow> uuid \<Rightarrow> error + Listing" where
  "Listing_objects_get db k =
     (case Listing_objects db k of None \<Rightarrow> Inl DoesNotExist | Some l \<Rightarrow> Inr l)"

text \<open>\<^verbatim>\<open>self.reviews.all()\<close>: the reviews whose listing is this one.\<close>

definition reviews_all :: "store \<Rightarrow> Listing \<Rightarrow> Review list" where
  "reviews_all db self = filter (\<lambda>review. Review.listing review = listing_id self) (Review_objects db)"

section \<open>Derived views\<close>



text \<open>\<^verbatim>\<open>Booking.duration_days\<close>\<close>

definition duration_days :: "Booking \<Rightarrow> int" where
  "duration_days self = days (date_sub (Booking.check_out_date self) (Booking.check_in_date self))"

text \<open>
  \<^verbatim>\<open>ListingSerializer.get_amenities_list\<close> and
  \<^verbatim>\<open>ListingListSerializer.get_amenities_list\<close>
\<close>

definition ListingSerializer_get_amenities_list :: "Listing \<Rightarrow> pystr list" where
  "ListingSerializer_get_amenities_list obj =
     (if amenities obj \<noteq> [] then map strip (split comma (amenities obj)) else [])"

definition ListingListSerializer_get_amenities_list :: "Listing \<Rightarrow> pystr list" where
  "ListingListSerializer_get_amenities_list obj =
     (if amenities obj \<noteq> [] then map strip (split comma (amenities obj)) else [])"

text \<open>\<^verbatim>\<open>ListingListSerializer.get_review_count\<close>\<close>

definition get_review_count :: "store \<Rightarrow> Listing \<Rightarrow> nat" where
  "get_review_count db obj = length (reviews_all db obj)"

section \<open>Field validators\<close>

text \<open>
  \<^verbatim>\<open>MinValueValidator(limit)\<close> rejects a value below its limit,
  \<^verbatim>\<open>MaxValueValidator(limit)\<close> a value above it.  The message is the validator's
  message template.
\<close>

definition MinValueValidator :: "'a::linorder \<Rightarrow> 'a \<Rightarrow> error + unit" where
  "MinValueValidator limit_value a =
     (if a < limit_value
      then Inl (ValidationError ''Ensure this value is greater than or equal to %(limit_value)s.'')
      else Inr ())"

definition MaxValueValidator :: "'a::linorder \<Rightarrow> 'a \<Rightarrow> error + unit" where
  "MaxValueValidator limit_value a =
     (if a > limit_value
      then Inl (ValidationError ''Ensure this value is less than or equal to %(limit_value)s.'')
      else Inr ())"


text \<open>
  \<^verbatim>\<open>Review.rating\<close> has \<^verbatim>\<open>validators=[MinValueValidator(1), MaxValueValidator(5)]\<close>.
  Running a field's validators tries each of them and fails when any failed.
\<close>

definition run_validators :: "('a \<Rightarrow> error + unit) list \<Rightarrow> 'a \<Rightarrow> error list + unit" where
  "run_validators vs a =
     (let errors = concat (map (\<lambda>v. case v a of Inl e \<Rightarrow> [e] | Inr _ \<Rightarrow> []) vs)
      in if errors \<noteq> [] then Inl errors else Inr ())"

definition Review_rating_validators :: "int \<Rightarrow> error list + unit" where
  "Review_rating_validators r = run_validators [MinValueValidator 1, MaxValueValidator 5] r"

section \<open>Serializers\<close>

text \<open>\<^verbatim>\<open>ReviewSerializer.validate_rating\<close>\<close>

definition validate_rating :: "int \<Rightarrow> error + int" where
  "validate_rating v =
     (if \<not> (1 \<le> v \<and> v \<le> 5)
      then Inl (ValidationError ''Rating must be between 1 and 5.'')
      else Inr v)"


text \<open>\<^verbatim>\<open>ListingSerializer.validate_max_guest_count\<close>\<close>

definition validate_max_guest_count :: "int \<Rightarrow> error + int" where
  "validate_max_guest_count v =
     (if v < 1
      then Inl (ValidationError ''Maximum guest count must be at least 1.'')
      else Inr v)"

text \<open>\<^verbatim>\<open>BookingSerializer.validate_total_price\<close>\<close>

definition validate_total_price :: "rat \<Rightarrow> error + rat" where
  "validate_total_price v =
     (if v \<le> 0
      then Inl (ValidationError ''Total price must be positive.'')
      else Inr v)"

text \<open>
  The dictionary \<^verbatim>\<open>data\<close> that \<^verbatim>\<open>BookingSerializer.validate\<close> receives: the writable
  fields of the serializer, each present or absent.  \<^verbatim>\<open>data.get(k)\<close> is \<open>None\<close> for an
  absent key.
\<close>

record booking_data =
  listing_id :: "uuid option"
  user_id :: "int option"
  check_in_date :: "date option"
  check_out_date :: "date option"
  number_of_guests :: "nat option"
  total_price :: "rat option"
  status :: "pystr option"
  special_requests :: "pystr option"

text \<open>
  Truth values: \<open>None\<close> is false; a date and a UUID are always true; an integer is
  true unless it is 0.
\<close>

definition truthy_obj :: "'a option \<Rightarrow> bool" where
  "truthy_obj x = (x \<noteq> None)"

definition truthy_int :: "nat option \<Rightarrow> bool" where
  "truthy_int x = (case x of None \<Rightarrow> False | Some n \<Rightarrow> n \<noteq> 0)"

definition guests_exceed_message :: "nat \<Rightarrow> nat \<Rightarrow> string" where
  "guests_exceed_message g m =
     ''Number of guests ('' @ show_nat g @ '') exceeds maximum allowed ('' @ show_nat m @ '').''"

text \<open>\<^verbatim>\<open>BookingSerializer.validate\<close>\<close>

definition BookingSerializer_validate :: "store \<Rightarrow> booking_data \<Rightarrow> error + booking_data" where
  "BookingSerializer_validate db data =
     (let check_in = booking_data.check_in_date data;
          check_out = booking_data.check_out_date data
      in if truthy_obj check_in \<and> truthy_obj check_out \<and> date_le (the check_out) (the check_in)
         then Inl (ValidationError ''Check-out date must be after check-in date.'')
         else
           let lid = booking_data.listing_id data;
               guests = booking_data.number_of_guests data
           in if truthy_obj lid \<and> truthy_int guests
              then (case Listing_objects_get db (the lid) of
                      Inr l \<Rightarrow>
                        if the guests > max_guest_count l
                        then Inl (ValidationError
                               (guests_exceed_message (the guests) (max_guest_count l)))
                        else Inr data
                    | Inl DoesNotExist \<Rightarrow> Inl (ValidationError ''Invalid listing ID.'')
                    | Inl e \<Rightarrow> Inl e)
              else Inr data)"

section \<open>Model validation and storage constraints\<close>

text \<open>
  \<^verbatim>\<open>Booking.clean\<close>.  Reading \<^verbatim>\<open>self.listing\<close> fetches the listing row and raises
  \<^verbatim>\<open>DoesNotExist\<close> when there is none.
\<close>

definition Booking_clean :: "store \<Rightarrow> Booking \<Rightarrow> error + unit" where
  "Booking_clean db self =
     (if date_le (Booking.check_out_date self) (Booking.check_in_date self)
      then Inl (ValidationError ''Check-out date must be after check-in date.'')
      else (case Listing_objects_get db (Booking.listing self) of
              Inl e \<Rightarrow> Inl e
            | Inr l \<Rightarrow>
                if Booking.number_of_guests self > max_guest_count l
                then Inl (ValidationError
                       (guests_exceed_message (Booking.number_of_guests self) (max_guest_count l)))
                else Inr ()))"




text \<open>
  Inserting a review row (\<^verbatim>\<open>Review.objects.create\<close>).  The insert is the
  framework's and the database's; what they enforce is what the model declares: the
  primary key \<^verbatim>\<open>review_id\<close>, the uniqueness constraint on the pair that
  \<^verbatim>\<open>Review.Meta.unique_together = ['listing', 'user']\<close> declares, and the two
  foreign keys.  A rejected insert leaves the store as it was.
\<close>

definition Review_objects_create :: "store \<Rightarrow> Review \<Rightarrow> (error + Review) \<times> store" where
  "Review_objects_create db r =
     (if review_id r \<in> review_id ` set (Review_objects db)
      then (Inl (IntegrityError (PrimaryKey ''review_id'')), db)
      else if (Review.listing r, Review.user r)
                \<in> (\<lambda>x. (Review.listing x, Review.user x)) ` set (Review_objects db)
      then (Inl (IntegrityError (UniqueTogether [''listing'', ''user''])), db)
      else if Listing_objects db (Review.listing r) = None
      then (Inl (IntegrityError (ForeignKey ''listing'')), db)
      else if Review.user r \<notin> User_objects db
      then (Inl (IntegrityError (ForeignKey ''user'')), db)
      else (Inr r, db\<lparr>Review_objects := r # Review_objects db\<rparr>))"

section \<open>The data of a request\<close>

text \<open>
  The data a request for the booking \<open>b\<close> submits: every field present.
\<close>

definition booking_request :: "Booking \<Rightarrow> booking_data" where
  "booking_request b =
     \<lparr>listing_id = Some (Booking.listing b), user_id = Some (Booking.user b),
      check_in_date = Some (Booking.check_in_date b),
      check_out_date = Some (Booking.check_out_date b),
      number_of_guests = Some (Booking.number_of_guests b),
      total_price = Some (Booking.total_price b),
      status = Some (Booking.status b),
      special_requests = Some (Booking.special_requests b)\<rparr>"

section \<open>Notions of the specification\<close>

text \<open>
  The definitions of this section are not translations of the code: they say what the
  specification's words mean, and the theorems below compare the code with them.
\<close>


text \<open>A month and a day that exist in the calendar, in any year.\<close>

definition valid_month_day :: "date \<Rightarrow> bool" where
  "valid_month_day d =
     (1 \<le> month d \<and> month d \<le> 12 \<and> 1 \<le> day d \<and> day d \<le> days_in_month (year d) (month d))"

text \<open>The calendar day after a date.\<close>

definition next_day :: "date \<Rightarrow> date" where
  "next_day d =
     (if day d < days_in_month (year d) (month d) then d\<lparr>day := day d + 1\<rparr>
      else if month d < 12 then d\<lparr>month := month d + 1, day := 1\<rparr>
      else \<lparr>year = year d + 1, month = 1, day = 1\<rparr>)"

text \<open>
  \<open>ts\<close> splits \<open>s\<close> at the separator: the tokens hold no separator, there is at least
  one, and putting the separator back between them gives \<open>s\<close>.
\<close>

fun join :: "'a \<Rightarrow> 'a list list \<Rightarrow> 'a list" where
  "join sep [] = []"
| "join sep [t] = t"
| "join sep (t # ts) = t @ sep # join sep ts"

definition split_of :: "'a \<Rightarrow> 'a list \<Rightarrow> 'a list list \<Rightarrow> bool" where
  "split_of sep s ts = (ts \<noteq> [] \<and> join sep ts = s \<and> list_all (\<lambda>t. sep \<notin> set t) ts)"

text \<open>
  \<open>u\<close> is \<open>t\<close> without its leading and trailing whitespace: \<open>t\<close> is \<open>u\<close> between two
  runs of whitespace, and \<open>u\<close> neither starts nor ends with whitespace.
\<close>

definition trimmed_of :: "pystr \<Rightarrow> pystr \<Rightarrow> bool" where
  "trimmed_of t u =
     (\<exists>a b. t = a @ u @ b \<and> list_all py_isspace a \<and> list_all py_isspace b
        \<and> (u = [] \<or> (\<not> py_isspace (hd u) \<and> \<not> py_isspace (last u))))"

definition split_and_trimmed :: "pystr \<Rightarrow> pystr list \<Rightarrow> bool" where
  "split_and_trimmed s us = (\<exists>ts. split_of comma s ts \<and> list_all2 trimmed_of ts us)"

section \<open>Example data\<close>

definition listing0 :: Listing where
  "listing0 =
     \<lparr>Listing.listing_id = 7, title = str ''Cabin'', description = str ''A cabin'',
      location = str ''Lagos'', price_per_night = 100, number_of_bedrooms = 2,
      number_of_bathrooms = 1, max_guest_count = 4, host = 1, is_available = True,
      amenities = str ''WiFi, Kitchen, Parking''\<rparr>"

definition db0 :: store where
  "db0 = \<lparr>User_objects = {1, 2, 3}, Listing_objects = [7 \<mapsto> listing0],
          Booking_objects = [], Review_objects = []\<rparr>"

definition june_9 :: date where
  "june_9 = \<lparr>year = 2024, month = 6, day = 9\<rparr>"

definition june_10 :: date where
  "june_10 = \<lparr>year = 2024, month = 6, day = 10\<rparr>"

definition june_12 :: date where
  "june_12 = \<lparr>year = 2024, month = 6, day = 12\<rparr>"

text \<open>A booking of listing 7 by user 2 for \<open>g\<close> guests, 10 to 12 June 2024.\<close>

definition booking0 :: "nat \<Rightarrow> Booking" where
  "booking0 g =
     \<lparr>booking_id = 50, listing = 7, user = 2, check_in_date = june_10,
      check_out_date = june_12, number_of_guests = g, total_price = 200,
      status = str ''pending'', special_requests = []\<rparr>"

text \<open>A review of listing \<open>l\<close> by user \<open>u\<close> with rating \<open>n\<close>.\<close>

definition review0 :: "uuid \<Rightarrow> uuid \<Rightarrow> int \<Rightarrow> nat \<Rightarrow> Review" where
  "review0 k l u n = \<lparr>review_id = k, listing = l, user = u, rating = n, comment = str ''ok''\<rparr>"

definition db1 :: store where
  "db1 = db0\<lparr>Review_objects :=
            [review0 21 7 1 3, review0 22 8 1 1, review0 23 7 2 4, review0 24 7 3 5]\<rparr>"

section \<open>Lemmas\<close>

lemmas ex_defs =
  db0_def db1_def listing0_def june_9_def june_10_def june_12_def booking0_def review0_def
  booking_request_def

subsection \<open>The calendar\<close>

lemma DAYS_BEFORE_MONTH_eq:
  "DAYS_BEFORE_MONTH = [-1, 0, 31, 59, 90, 120, 151, 181, 212, 243, 273, 304, 334]"
  by (simp add: DAYS_BEFORE_MONTH_def DAYS_IN_MONTH_def)

lemma month_cases:
  "1 \<le> m \<Longrightarrow> m \<le> 12 \<Longrightarrow> m = 1 \<or> m = 2 \<or> m = 3 \<or> m = 4 \<or> m = 5 \<or> m = 6 \<or> m = 7
     \<or> m = 8 \<or> m = 9 \<or> m = 10 \<or> m = 11 \<or> m = (12::int)"
  by arith

lemma days_before_month_step:
  assumes "1 \<le> m" "m < 12"
  shows "days_before_month y (m + 1) = days_before_month y m + days_in_month y m"
proof -
  from assms have "m = 1 \<or> m = 2 \<or> m = 3 \<or> m = 4 \<or> m = 5 \<or> m = 6 \<or> m = 7
     \<or> m = 8 \<or> m = 9 \<or> m = 10 \<or> m = 11" by arith
  then show ?thesis
    by (elim disjE; simp add: days_before_month_def days_in_month_def DAYS_BEFORE_MONTH_eq DAYS_IN_MONTH_def)
qed

lemma div_pred:
  fixes y k :: int
  assumes "0 < k"
  shows "(y - 1) div k = y div k - (if y mod k = 0 then 1 else 0)"
proof (cases "y mod k = 0")
  case True
  have "y - 1 = k * (y div k - 1) + (k - 1)"
    using mult_div_mod_eq[of k y] True by (simp add: algebra_simps)
  then have "(y - 1) div k = y div k - 1"
    using assms by (intro int_div_pos_eq[where r = "k - 1"]) simp_all
  with True show ?thesis by simp
next
  case False
  have r: "0 \<le> y mod k - 1" "y mod k - 1 < k"
    using assms False pos_mod_sign[of k y] pos_mod_bound[of k y] by linarith+
  have "y - 1 = k * (y div k) + (y mod k - 1)"
    using mult_div_mod_eq[of k y] by simp
  then have "(y - 1) div k = y div k"
    using r by (intro int_div_pos_eq[where r = "y mod k - 1"]) simp_all
  with False show ?thesis by simp
qed

lemma mod_100_4: "(y::int) mod 100 = 0 \<Longrightarrow> y mod 4 = 0"
  using mod_mod_cancel[of 4 100 y] by simp

lemma mod_400_100: "(y::int) mod 400 = 0 \<Longrightarrow> y mod 100 = 0"
  using mod_mod_cancel[of 100 400 y] by simp

lemma days_before_year_step:
  "days_before_year (y + 1) = days_before_year y + (if is_leap y then 366 else 365)"
  using mod_100_4[of y] mod_400_100[of y]
  by (auto simp add: days_before_year_def is_leap_def Let_def div_pred[of 4 y] div_pred[of 100 y] div_pred[of 400 y])

lemma days_before_year_mono: "y \<le> z \<Longrightarrow> days_before_year y \<le> days_before_year z"
proof (induction z rule: int_ge_induct)
  case base
  show ?case by simp
next
  case (step i)
  then show ?case by (simp add: days_before_year_step)
qed

lemma december:
  "days_before_month y 12 + days_in_month y 12 = (if is_leap y then 366 else 365)"
  by (simp add: days_before_month_def days_in_month_def DAYS_BEFORE_MONTH_eq DAYS_IN_MONTH_def)

lemma days_in_month_ge: "1 \<le> m \<Longrightarrow> m \<le> 12 \<Longrightarrow> 28 \<le> days_in_month y m"
  by (drule (1) month_cases) (elim disjE; simp add: days_in_month_def DAYS_IN_MONTH_def)

lemma month_end_le:
  assumes "1 \<le> m" "m < k" "k \<le> 12"
  shows "days_before_month y m + days_in_month y m \<le> days_before_month y k"
proof -
  have m: "1 \<le> m" "m \<le> 12" and k: "1 \<le> k" "k \<le> 12"
    using assms by simp_all
  from month_cases[OF m] month_cases[OF k] assms(2) show ?thesis
    by (elim disjE; simp add: days_before_month_def days_in_month_def DAYS_BEFORE_MONTH_eq
        DAYS_IN_MONTH_def)
qed

lemma year_end_le:
  assumes "1 \<le> m" "m \<le> 12"
  shows "days_before_month y m + days_in_month y m \<le> (if is_leap y then 366 else 365)"
  using month_cases[OF assms]
  by (elim disjE; simp add: days_before_month_def days_in_month_def DAYS_BEFORE_MONTH_eq DAYS_IN_MONTH_def)

lemma days_before_month_nonneg: "1 \<le> m \<Longrightarrow> m \<le> 12 \<Longrightarrow> 0 \<le> days_before_month y m"
  by (drule (1) month_cases) (elim disjE; simp add: days_before_month_def DAYS_BEFORE_MONTH_eq)

lemma toordinal_less:
  assumes a: "valid_month_day a" and b: "valid_month_day b" and lt: "date_cmp a b < 0"
  shows "toordinal a < toordinal b"
proof -
  consider (y) "year a < year b"
    | (m) "year a = year b" "month a < month b"
    | (d) "year a = year b" "month a = month b" "day a < day b"
    using lt by (auto simp add: date_cmp_def split: if_splits)
  then show ?thesis
  proof cases
    case y
    have "toordinal a \<le> days_before_year (year a + 1)"
      using a year_end_le[of "month a" "year a"]
      by (simp add: valid_month_day_def toordinal_def ymd2ord_def days_before_year_step)
    also have "\<dots> \<le> days_before_year (year b)"
      using y by (intro days_before_year_mono) simp
    also have "\<dots> < toordinal b"
      using b days_before_month_nonneg[of "month b" "year b"]
      by (simp add: valid_month_day_def toordinal_def ymd2ord_def)
    finally show ?thesis .
  next
    case m
    then show ?thesis
      using a b month_end_le[of "month a" "month b" "year b"]
      by (simp add: valid_month_day_def toordinal_def ymd2ord_def)
  next
    case d
    then show ?thesis by (simp add: toordinal_def ymd2ord_def)
  qed
qed

lemma date_cmp_sym: "date_cmp b a = - date_cmp a b"
  by (simp add: date_cmp_def)

lemma date_cmp_0: "date_cmp a b = 0 \<Longrightarrow> toordinal a = toordinal b"
  by (simp add: date_cmp_def toordinal_def split: if_splits)

lemma date_le_toordinal:
  assumes "valid_month_day a" "valid_month_day b"
  shows "date_le a b = (toordinal a \<le> toordinal b)"
proof -
  consider "date_cmp a b < 0" | "date_cmp a b = 0" | "date_cmp b a < 0"
    using date_cmp_sym[of b a] by linarith
  then show ?thesis
  proof cases
    case 1 then show ?thesis using toordinal_less[OF assms 1] by (simp add: date_le_def)
  next
    case 2 then show ?thesis using date_cmp_0[OF 2] by (simp add: date_le_def)
  next
    case 3
    then show ?thesis
      using toordinal_less[OF assms(2) assms(1) 3] date_cmp_sym[of b a] by (simp add: date_le_def)
  qed
qed

lemma date_gt_not_le: "date_gt a b = (\<not> date_le a b)"
  by (simp add: date_gt_def date_le_def not_le)

lemma check_date_fields_valid: "check_date_fields d \<Longrightarrow> valid_month_day d"
  by (simp add: check_date_fields_def valid_month_day_def)

subsection \<open>Messages\<close>

lemma guests_exceed_message_neq:
  "guests_exceed_message g m \<noteq> ''Check-out date must be after check-in date.''"
  "guests_exceed_message g m \<noteq> ''Invalid listing ID.''"
  by (simp_all add: guests_exceed_message_def)

section \<open>Check-out after check-in\<close>

text \<open>
  Claim C4.  For a pair of dates, the serializer's validation fails with the
  ValidationError for the dates exactly when the check-out date is not after the
  check-in date, and so does the model's \<^verbatim>\<open>clean\<close>, each on its own.  For dates of
  the calendar, "not after" is the order of the days.
\<close>

theorem checkout_after_checkin:
  "(booking_data.check_in_date data = Some ci \<and> booking_data.check_out_date data = Some co \<longrightarrow>
      (BookingSerializer_validate db data
         = Inl (ValidationError ''Check-out date must be after check-in date.''))
       = date_le co ci)
   \<and> (Booking_clean db b = Inl (ValidationError ''Check-out date must be after check-in date.''))
       = date_le (Booking.check_out_date b) (Booking.check_in_date b)
   \<and> date_le co ci = (\<not> date_gt co ci)
   \<and> (check_date_fields ci \<and> check_date_fields co \<longrightarrow>
        date_le co ci = (toordinal co \<le> toordinal ci))"
proof (intro conjI impI)
  assume "booking_data.check_in_date data = Some ci \<and> booking_data.check_out_date data = Some co"
  then show "(BookingSerializer_validate db data
         = Inl (ValidationError ''Check-out date must be after check-in date.''))
       = date_le co ci"
    by (auto simp add: BookingSerializer_validate_def Let_def truthy_obj_def
        Listing_objects_get_def guests_exceed_message_neq split: option.splits)
next
  show "(Booking_clean db b = Inl (ValidationError ''Check-out date must be after check-in date.''))
       = date_le (Booking.check_out_date b) (Booking.check_in_date b)"
    by (auto simp add: Booking_clean_def Listing_objects_get_def guests_exceed_message_neq
        split: option.splits)
next
  show "date_le co ci = (\<not> date_gt co ci)" by (simp add: date_gt_not_le)
next
  assume "check_date_fields ci \<and> check_date_fields co"
  then show "date_le co ci = (toordinal co \<le> toordinal ci)"
    by (simp add: date_le_toordinal check_date_fields_valid)
qed

theorem checkout_after_checkin_witness:
  "booking_data.check_in_date (booking_request ((booking0 2)\<lparr>Booking.check_out_date := june_9\<rparr>)) = Some june_10
   \<and> booking_data.check_out_date (booking_request ((booking0 2)\<lparr>Booking.check_out_date := june_9\<rparr>)) = Some june_9
   \<and> date_le june_9 june_10
   \<and> BookingSerializer_validate db0 (booking_request ((booking0 2)\<lparr>Booking.check_out_date := june_9\<rparr>))
       = Inl (ValidationError ''Check-out date must be after check-in date.'')
   \<and> Booking_clean db0 ((booking0 2)\<lparr>Booking.check_out_date := june_9\<rparr>)
       = Inl (ValidationError ''Check-out date must be after check-in date.'')
   \<and> check_date_fields june_10 \<and> check_date_fields june_9
   \<and> toordinal june_9 \<le> toordinal june_10"
proof -
  let ?b = "(booking0 2)\<lparr>Booking.check_out_date := june_9\<rparr>"
  have h: "booking_data.check_in_date (booking_request ?b) = Some june_10
    \<and> booking_data.check_out_date (booking_request ?b) = Some june_9"
    by (simp add: ex_defs)
  have v: "check_date_fields june_10 \<and> check_date_fields june_9"
    by (simp add: ex_defs check_date_fields_def MINYEAR_def MAXYEAR_def days_in_month_def DAYS_IN_MONTH_def)
  have le: "date_le june_9 june_10" by (simp add: ex_defs date_le_def date_cmp_def)
  have b: "Booking.check_out_date ?b = june_9" "Booking.check_in_date ?b = june_10" by (simp_all add: ex_defs)
  from checkout_after_checkin[of "booking_request ?b" june_10 june_9 db0 ?b] h v le b
  show ?thesis by simp
qed


section \<open>Guests within capacity\<close>






section \<open>The capacity check on zero guests\<close>

text \<open>
  Claim C10.  When the submitted number of guests is 0 or absent, or the listing
  reference is absent, the serializer's cross-field validation neither compares the
  guests with a capacity nor looks the listing up: its result is the same for every
  store, and unless the date check fails the input is accepted, also when the listing
  it names does not exist.
\<close>

theorem guests_check_skipped:
  "booking_data.number_of_guests data = Some 0 \<or> booking_data.number_of_guests data = None
      \<or> booking_data.listing_id data = None \<longrightarrow>
      BookingSerializer_validate db data = BookingSerializer_validate db' data
      \<and> (\<not> (\<exists>ci co. booking_data.check_in_date data = Some ci
              \<and> booking_data.check_out_date data = Some co \<and> date_le co ci)
           \<longrightarrow> BookingSerializer_validate db data = Inr data)"
  by (auto simp add: BookingSerializer_validate_def Let_def truthy_obj_def truthy_int_def)

theorem guests_check_skipped_witness:
  "booking_data.number_of_guests (booking_request ((booking0 0)\<lparr>Booking.listing := 9\<rparr>)) = Some 0
   \<and> Listing_objects db0 9 = None
   \<and> Listing_objects_get db0 9 = Inl DoesNotExist
   \<and> BookingSerializer_validate db0 (booking_request ((booking0 0)\<lparr>Booking.listing := 9\<rparr>))
       = Inr (booking_request ((booking0 0)\<lparr>Booking.listing := 9\<rparr>))"
proof -
  let ?d = "booking_request ((booking0 0)\<lparr>Booking.listing := 9\<rparr>)"
  have g: "booking_data.number_of_guests ?d = Some 0" by (simp add: ex_defs)
  have n: "Listing_objects db0 9 = None" by (simp add: ex_defs)
  have dates: "\<not> (\<exists>ci co. booking_data.check_in_date ?d = Some ci
              \<and> booking_data.check_out_date ?d = Some co \<and> date_le co ci)"
    by (simp add: ex_defs date_le_def date_cmp_def)
  from guests_check_skipped[of ?d db0 db0] g dates
  have "BookingSerializer_validate db0 ?d = Inr ?d" by blast
  with g n show ?thesis by (simp add: Listing_objects_get_def)
qed

section \<open>A booking for a listing that does not exist\<close>

text \<open>
  Claim C2, as amended.  The serializer's validation never fails with
  \<^verbatim>\<open>DoesNotExist\<close> (the specification's NotFoundError): when the listing reference
  names no listing, the number of guests is present and not 0 and the date check does
  not fail, it fails with the ValidationError "Invalid listing ID.".
\<close>

theorem missing_listing_is_validation_error:
  "BookingSerializer_validate db data \<noteq> Inl DoesNotExist
   \<and> (Listing_objects db k = None \<and> booking_data.listing_id data = Some k
        \<and> booking_data.number_of_guests data = Some g \<and> g \<noteq> 0
        \<and> \<not> (\<exists>ci co. booking_data.check_in_date data = Some ci
                 \<and> booking_data.check_out_date data = Some co \<and> date_le co ci)
       \<longrightarrow> BookingSerializer_validate db data = Inl (ValidationError ''Invalid listing ID.''))"
  by (auto simp add: BookingSerializer_validate_def Let_def truthy_obj_def truthy_int_def
      Listing_objects_get_def split: option.splits)

text \<open>
  Claim C2 as stated fails: for a request that names the missing listing 9, the
  validation fails with ValidationError, not with \<^verbatim>\<open>DoesNotExist\<close>.
\<close>

theorem missing_listing_not_found_counterexample:
  "Listing_objects db0 9 = None
   \<and> booking_data.listing_id (booking_request ((booking0 2)\<lparr>Booking.listing := 9\<rparr>)) = Some 9
   \<and> BookingSerializer_validate db0 (booking_request ((booking0 2)\<lparr>Booking.listing := 9\<rparr>))
       = Inl (ValidationError ''Invalid listing ID.'')
   \<and> BookingSerializer_validate db0 (booking_request ((booking0 2)\<lparr>Booking.listing := 9\<rparr>))
       \<noteq> Inl DoesNotExist"
  by (simp add: ex_defs BookingSerializer_validate_def truthy_obj_def truthy_int_def
      Listing_objects_get_def date_le_def date_cmp_def)

theorem missing_listing_is_validation_error_witness:
  "Listing_objects db0 9 = None
   \<and> booking_data.listing_id (booking_request ((booking0 2)\<lparr>Booking.listing := 9\<rparr>)) = Some 9
   \<and> booking_data.number_of_guests (booking_request ((booking0 2)\<lparr>Booking.listing := 9\<rparr>)) = Some 2
   \<and> (2::nat) \<noteq> 0
   \<and> BookingSerializer_validate db0 (booking_request ((booking0 2)\<lparr>Booking.listing := 9\<rparr>))
       = Inl (ValidationError ''Invalid listing ID.'')"
proof -
  let ?d = "booking_request ((booking0 2)\<lparr>Booking.listing := 9\<rparr>)"
  have n: "Listing_objects db0 9 = None" by (simp add: ex_defs)
  have k: "booking_data.listing_id ?d = Some 9" by (simp add: ex_defs)
  have g: "booking_data.number_of_guests ?d = Some 2" by (simp add: ex_defs)
  have dates: "\<not> (\<exists>ci co. booking_data.check_in_date ?d = Some ci
              \<and> booking_data.check_out_date ?d = Some co \<and> date_le co ci)"
    by (simp add: ex_defs date_le_def date_cmp_def)
  from missing_listing_is_validation_error[of db0 ?d 9 2] n k g dates
  have "BookingSerializer_validate db0 ?d = Inl (ValidationError ''Invalid listing ID.'')" by simp
  with n k g show ?thesis by simp
qed

section \<open>Average rating\<close>






section \<open>Duration of a booking\<close>

lemma toordinal_next_day: "valid_month_day d \<Longrightarrow> toordinal (next_day d) = toordinal d + 1"
  using days_before_month_step[of "month d" "year d"] days_before_year_step[of "year d"]
    december[of "year d"]
  by (auto simp add: valid_month_day_def next_day_def toordinal_def ymd2ord_def
      days_before_month_def[of _ 1] DAYS_BEFORE_MONTH_eq)

lemma valid_next_day: "valid_month_day d \<Longrightarrow> valid_month_day (next_day d)"
  using days_in_month_ge[of "month d + 1" "year d"] days_in_month_ge[of 1 "year d + 1"]
  by (auto simp add: valid_month_day_def next_day_def)

lemma valid_days_later: "valid_month_day d \<Longrightarrow> valid_month_day ((next_day ^^ n) d)"
  by (induction n) (simp_all add: valid_next_day)

lemma toordinal_days_later:
  "valid_month_day d \<Longrightarrow> toordinal ((next_day ^^ n) d) = toordinal d + int n"
  by (induction n) (simp_all add: toordinal_next_day valid_days_later)

text \<open>
  Claim C8.  The duration of a booking is the number of days from the check-in date to
  the check-out date: the difference of the two day numbers, which is \<open>n\<close> when the
  check-out date is the \<open>n\<close>-th day after the check-in date and \<open>- n\<close> when it is the
  \<open>n\<close>-th day before.  From 10 June 2024 to 12 June 2024 it is 2.
\<close>

theorem duration_days_counts_days:
  "duration_days self = toordinal (Booking.check_out_date self) - toordinal (Booking.check_in_date self)
   \<and> (check_date_fields (Booking.check_in_date self)
        \<and> (next_day ^^ n) (Booking.check_in_date self) = Booking.check_out_date self
        \<longrightarrow> duration_days self = int n)
   \<and> (check_date_fields (Booking.check_out_date self)
        \<and> (next_day ^^ n) (Booking.check_out_date self) = Booking.check_in_date self
        \<longrightarrow> duration_days self = - int n)
   \<and> (Booking.check_in_date self = \<lparr>year = 2024, month = 6, day = 10\<rparr>
        \<and> Booking.check_out_date self = \<lparr>year = 2024, month = 6, day = 12\<rparr>
        \<longrightarrow> duration_days self = 2)"
proof (intro conjI impI)
  show d: "duration_days self
      = toordinal (Booking.check_out_date self) - toordinal (Booking.check_in_date self)"
    by (simp add: duration_days_def date_sub_def)
  {
    assume h: "check_date_fields (Booking.check_in_date self)
        \<and> (next_day ^^ n) (Booking.check_in_date self) = Booking.check_out_date self"
    then have "toordinal (Booking.check_out_date self) = toordinal (Booking.check_in_date self) + int n"
      using toordinal_days_later[of "Booking.check_in_date self" n]
      by (simp add: check_date_fields_valid)
    then show "duration_days self = int n" using d by simp
  }
  {
    assume h: "check_date_fields (Booking.check_out_date self)
        \<and> (next_day ^^ n) (Booking.check_out_date self) = Booking.check_in_date self"
    then have "toordinal (Booking.check_in_date self) = toordinal (Booking.check_out_date self) + int n"
      using toordinal_days_later[of "Booking.check_out_date self" n]
      by (simp add: check_date_fields_valid)
    then show "duration_days self = - int n" using d by simp
  }
  {
    assume "Booking.check_in_date self = \<lparr>year = 2024, month = 6, day = 10\<rparr>
        \<and> Booking.check_out_date self = \<lparr>year = 2024, month = 6, day = 12\<rparr>"
    then show "duration_days self = 2"
      by (simp add: d toordinal_def ymd2ord_def days_before_month_def days_before_year_def
          DAYS_BEFORE_MONTH_eq is_leap_def)
  }
qed

theorem duration_days_counts_days_witness:
  "check_date_fields (Booking.check_in_date (booking0 2))
   \<and> (next_day ^^ 2) (Booking.check_in_date (booking0 2)) = Booking.check_out_date (booking0 2)
   \<and> Booking.check_in_date (booking0 2) = \<lparr>year = 2024, month = 6, day = 10\<rparr>
   \<and> Booking.check_out_date (booking0 2) = \<lparr>year = 2024, month = 6, day = 12\<rparr>
   \<and> duration_days (booking0 2) = 2
   \<and> check_date_fields june_9 \<and> (next_day ^^ 1) june_9 = june_10
   \<and> duration_days ((booking0 2)\<lparr>Booking.check_in_date := june_10, Booking.check_out_date := june_9\<rparr>) = - 1"
proof -
  have v: "check_date_fields (Booking.check_in_date (booking0 2))" "check_date_fields june_9"
    by (simp_all add: ex_defs check_date_fields_def MINYEAR_def MAXYEAR_def days_in_month_def
        DAYS_IN_MONTH_def)
  have n: "(next_day ^^ 2) (Booking.check_in_date (booking0 2)) = Booking.check_out_date (booking0 2)"
    by (simp add: ex_defs numeral_2_eq_2 next_day_def days_in_month_def DAYS_IN_MONTH_def)
  have n1: "(next_day ^^ 1) june_9 = june_10"
    by (simp add: ex_defs next_day_def days_in_month_def DAYS_IN_MONTH_def)
  have i: "Booking.check_in_date (booking0 2) = \<lparr>year = 2024, month = 6, day = 10\<rparr>"
    and o: "Booking.check_out_date (booking0 2) = \<lparr>year = 2024, month = 6, day = 12\<rparr>"
    by (simp_all add: ex_defs)
  from duration_days_counts_days[of "booking0 2" 2] v(1) n
  have d: "duration_days (booking0 2) = 2" by simp
  let ?r = "(booking0 2)\<lparr>Booking.check_in_date := june_10, Booking.check_out_date := june_9\<rparr>"
  from duration_days_counts_days[of ?r 1] v(2) n1
  have r: "duration_days ?r = - 1" by simp
  from v n n1 i o d r show ?thesis by simp
qed

section \<open>The list of amenities\<close>

lemma split_loop_nonempty: "split_loop sep cur s \<noteq> []"
  by (induction s arbitrary: cur) auto

lemma split_loop_join:
  "join sep (split_loop sep cur s) = rev cur @ s"
proof (induction s arbitrary: cur)
  case Nil show ?case by simp
next
  case (Cons c cs)
  have ne: "split_loop sep [] cs \<noteq> []" by (rule split_loop_nonempty)
  show ?case
  proof (cases "c = sep")
    case True
    obtain x xs where "split_loop sep [] cs = x # xs" using ne by (cases "split_loop sep [] cs") auto
    with True Cons.IH[of "[]"] show ?thesis by simp
  next
    case False with Cons.IH[of "c # cur"] show ?thesis by simp
  qed
qed

lemma split_loop_no_sep:
  "sep \<notin> set cur \<Longrightarrow> list_all (\<lambda>t. sep \<notin> set t) (split_loop sep cur s)"
  by (induction s arbitrary: cur) auto

lemma split_is_split: "split_of sep s (split sep s)"
  by (simp add: split_of_def split_def split_loop_join split_loop_no_sep split_loop_nonempty)

lemma split_loop_token:
  "sep \<notin> set t \<Longrightarrow> split_loop sep cur (t @ sep # r) = (rev cur @ t) # split_loop sep [] r"
  by (induction t arbitrary: cur) auto

lemma split_loop_last:
  "sep \<notin> set t \<Longrightarrow> split_loop sep cur t = [rev cur @ t]"
  by (induction t arbitrary: cur) auto

lemma split_join:
  "ts \<noteq> [] \<Longrightarrow> list_all (\<lambda>t. sep \<notin> set t) ts \<Longrightarrow> split_loop sep [] (join sep ts) = ts"
proof (induction sep ts rule: join.induct)
  case (1 sep) then show ?case by simp
next
  case (2 sep t) then show ?case by (simp add: split_loop_last)
next
  case (3 sep t v va)
  then show ?case by (simp add: split_loop_token)
qed

lemma split_of_unique: "split_of sep s ts \<Longrightarrow> ts = split sep s"
  using split_join[of ts sep] by (auto simp add: split_of_def split_def)

lemma strip_is_trimmed: "trimmed_of t (strip t)"
proof -
  define a where "a = takeWhile py_isspace t"
  define r where "r = dropWhile py_isspace t"
  define b where "b = rev (takeWhile py_isspace (rev r))"
  have t: "t = a @ r" by (simp add: a_def r_def)
  have "rev (takeWhile py_isspace (rev r) @ dropWhile py_isspace (rev r)) = r"
    by (simp only: takeWhile_dropWhile_id rev_rev_ident)
  moreover have "rev (takeWhile py_isspace (rev r) @ dropWhile py_isspace (rev r)) = strip t @ b"
    by (simp only: rev_append strip_def b_def r_def)
  ultimately have r: "r = strip t @ b" by simp
  have wa: "list_all py_isspace a" by (simp add: a_def list_all_iff) (meson set_takeWhileD)
  have wb: "list_all py_isspace b" by (simp add: b_def list_all_iff) (meson set_takeWhileD)
  have ends: "\<not> py_isspace (hd (strip t)) \<and> \<not> py_isspace (last (strip t))" if ne: "strip t \<noteq> []"
  proof -
    have d: "dropWhile py_isspace (rev r) \<noteq> []" using ne by (simp add: strip_def r_def)
    have "last (strip t) = hd (dropWhile py_isspace (rev r))"
      using d by (simp add: strip_def r_def last_rev)
    then have l: "\<not> py_isspace (last (strip t))" using d hd_dropWhile by metis
    have rne: "r \<noteq> []" using r ne by auto
    have "hd (strip t) = hd r" using r ne by (metis hd_append2)
    then have "\<not> py_isspace (hd (strip t))" using rne hd_dropWhile r_def by metis
    with l show ?thesis by simp
  qed
  show ?thesis unfolding trimmed_of_def
    using t r wa wb ends by (intro exI[of _ a] exI[of _ b]) auto
qed

lemma trimmed_unique: assumes "trimmed_of t u" shows "u = strip t"
proof -
  from assms obtain a b where t: "t = a @ u @ b" and wa: "list_all py_isspace a"
    and wb: "list_all py_isspace b"
    and e: "u = [] \<or> (\<not> py_isspace (hd u) \<and> \<not> py_isspace (last u))"
    unfolding trimmed_of_def by blast
  have da: "dropWhile py_isspace t = dropWhile py_isspace (u @ b)"
    using wa t by (simp add: list_all_iff dropWhile_append2)
  show ?thesis
  proof (cases "u = []")
    case True
    then have d0: "dropWhile py_isspace t = []"
      using da wb by (simp add: list_all_iff)
    show ?thesis unfolding strip_def d0 using True by simp
  next
    case False
    with e have h: "\<not> py_isspace (hd u)" and l: "\<not> py_isspace (last u)" by auto
    have "dropWhile py_isspace (u @ b) = u @ b" using False h by (cases u) auto
    then have "strip t = rev (dropWhile py_isspace (rev b @ rev u))" using da by (simp add: strip_def)
    also have "dropWhile py_isspace (rev b @ rev u) = dropWhile py_isspace (rev u)"
      using wb by (intro dropWhile_append2) (simp add: list_all_iff)
    also have "dropWhile py_isspace (rev u) = rev u"
      using False l by (cases "rev u") (auto simp add: last_rev hd_rev)
    finally show ?thesis by simp
  qed
qed


lemma trimmed_all_unique: "list_all2 trimmed_of ts us \<Longrightarrow> us = map strip ts"
  by (induction rule: list_all2_induct) (simp_all add: trimmed_unique)

lemma trimmed_all_strip: "list_all2 trimmed_of ts (map strip ts)"
  by (induction ts) (simp_all add: strip_is_trimmed)

text \<open>
  Claim C7.  For an empty stored string the list of amenities is empty.  For every
  other stored string it is the result of splitting the string at the commas and
  trimming the whitespace at both ends of each token, in order: it is such a result,
  and every such result is equal to it.  Both serializers compute the same list, and
  "WiFi, Kitchen, Parking" gives WiFi, Kitchen, Parking.
\<close>

theorem amenities_list_split_and_trimmed:
  "(amenities obj = [] \<longrightarrow> ListingSerializer_get_amenities_list obj = [])
   \<and> (amenities obj \<noteq> [] \<longrightarrow>
        split_and_trimmed (amenities obj) (ListingSerializer_get_amenities_list obj)
        \<and> (\<forall>us. split_and_trimmed (amenities obj) us
               \<longrightarrow> us = ListingSerializer_get_amenities_list obj))
   \<and> ListingListSerializer_get_amenities_list obj = ListingSerializer_get_amenities_list obj
   \<and> (amenities obj = str ''WiFi, Kitchen, Parking'' \<longrightarrow>
        ListingSerializer_get_amenities_list obj = [str ''WiFi'', str ''Kitchen'', str ''Parking''])"
proof (intro conjI impI allI)
  show "ListingSerializer_get_amenities_list obj = []" if "amenities obj = []"
    using that by (simp add: ListingSerializer_get_amenities_list_def)
next
  assume ne: "amenities obj \<noteq> []"
  have "split_of comma (amenities obj) (split comma (amenities obj))"
    by (rule split_is_split)
  then show "split_and_trimmed (amenities obj) (ListingSerializer_get_amenities_list obj)"
    unfolding split_and_trimmed_def using ne trimmed_all_strip
    by (auto simp add: ListingSerializer_get_amenities_list_def)
next
  fix us
  assume ne: "amenities obj \<noteq> []" and st: "split_and_trimmed (amenities obj) us"
  from st obtain ts where ts: "split_of comma (amenities obj) ts" and tr: "list_all2 trimmed_of ts us"
    unfolding split_and_trimmed_def by blast
  from ts have "ts = split comma (amenities obj)" by (rule split_of_unique)
  with tr have "us = map strip (split comma (amenities obj))" by (simp add: trimmed_all_unique)
  with ne show "us = ListingSerializer_get_amenities_list obj"
    by (simp add: ListingSerializer_get_amenities_list_def)
next
  show "ListingListSerializer_get_amenities_list obj = ListingSerializer_get_amenities_list obj"
    by (simp add: ListingListSerializer_get_amenities_list_def ListingSerializer_get_amenities_list_def)
next
  assume "amenities obj = str ''WiFi, Kitchen, Parking''"
  then show "ListingSerializer_get_amenities_list obj = [str ''WiFi'', str ''Kitchen'', str ''Parking'']"
    by (simp add: ListingSerializer_get_amenities_list_def str_def split_def comma_def strip_def
        py_isspace_def)
qed

theorem amenities_list_split_and_trimmed_witness:
  "amenities listing0 = str ''WiFi, Kitchen, Parking''
   \<and> amenities listing0 \<noteq> []
   \<and> ListingSerializer_get_amenities_list listing0 = [str ''WiFi'', str ''Kitchen'', str ''Parking'']
   \<and> ListingListSerializer_get_amenities_list listing0
       = [str ''WiFi'', str ''Kitchen'', str ''Parking'']
   \<and> split_and_trimmed (str ''WiFi, Kitchen, Parking'')
         [str ''WiFi'', str ''Kitchen'', str ''Parking'']
   \<and> amenities (listing0\<lparr>amenities := []\<rparr>) = []
   \<and> ListingSerializer_get_amenities_list (listing0\<lparr>amenities := []\<rparr>) = []"
proof -
  have a: "amenities listing0 = str ''WiFi, Kitchen, Parking''" by (simp add: listing0_def)
  have ne: "amenities listing0 \<noteq> []" by (simp add: listing0_def str_def)
  have e: "amenities (listing0\<lparr>amenities := []\<rparr>) = []" by simp
  note t = amenities_list_split_and_trimmed[of listing0]
  from t a have r: "ListingSerializer_get_amenities_list listing0
      = [str ''WiFi'', str ''Kitchen'', str ''Parking'']" by blast
  from t have rl: "ListingListSerializer_get_amenities_list listing0
      = ListingSerializer_get_amenities_list listing0" by blast
  from t ne have "split_and_trimmed (amenities listing0) (ListingSerializer_get_amenities_list listing0)"
    by blast
  then have st: "split_and_trimmed (str ''WiFi, Kitchen, Parking'')
         [str ''WiFi'', str ''Kitchen'', str ''Parking'']" by (simp only: a r)
  from amenities_list_split_and_trimmed[of "listing0\<lparr>amenities := []\<rparr>"] e
  have z: "ListingSerializer_get_amenities_list (listing0\<lparr>amenities := []\<rparr>) = []" by blast
  from a ne r rl st e z show ?thesis by simp
qed

section \<open>One review per user and listing\<close>

text \<open>
  Claim C9.  Inserting a review for a pair of user and listing that already has one
  fails with the integrity error of the uniqueness constraint (the specification's
  ConflictError) and leaves the store unchanged.  Inserting a review of an existing
  listing by an existing user who has not reviewed it succeeds and adds the row.  A
  store with at most one review per pair keeps that property through every insert.
\<close>

theorem one_review_per_user_and_listing:
  "(r1 \<in> set (Review_objects db) \<and> Review.listing r = Review.listing r1
      \<and> Review.user r = Review.user r1
      \<and> review_id r \<notin> review_id ` set (Review_objects db)
     \<longrightarrow> Review_objects_create db r
          = (Inl (IntegrityError (UniqueTogether [''listing'', ''user''])), db))
   \<and> (review_id r \<notin> review_id ` set (Review_objects db)
      \<and> (\<forall>x \<in> set (Review_objects db).
             Review.listing x = Review.listing r \<longrightarrow> Review.user x \<noteq> Review.user r)
      \<and> Listing_objects db (Review.listing r) \<noteq> None
      \<and> Review.user r \<in> User_objects db
     \<longrightarrow> Review_objects_create db r = (Inr r, db\<lparr>Review_objects := r # Review_objects db\<rparr>))
   \<and> (distinct (map (\<lambda>x. (Review.listing x, Review.user x)) (Review_objects db))
     \<longrightarrow> distinct (map (\<lambda>x. (Review.listing x, Review.user x))
                     (Review_objects (snd (Review_objects_create db r)))))"
proof (intro conjI impI)
  assume "r1 \<in> set (Review_objects db) \<and> Review.listing r = Review.listing r1
      \<and> Review.user r = Review.user r1
      \<and> review_id r \<notin> review_id ` set (Review_objects db)"
  then show "Review_objects_create db r
          = (Inl (IntegrityError (UniqueTogether [''listing'', ''user''])), db)"
    by (force simp add: Review_objects_create_def)
next
  assume h: "review_id r \<notin> review_id ` set (Review_objects db)
      \<and> (\<forall>x \<in> set (Review_objects db).
             Review.listing x = Review.listing r \<longrightarrow> Review.user x \<noteq> Review.user r)
      \<and> Listing_objects db (Review.listing r) \<noteq> None
      \<and> Review.user r \<in> User_objects db"
  then have "(Review.listing r, Review.user r)
      \<notin> (\<lambda>x. (Review.listing x, Review.user x)) ` set (Review_objects db)"
    by auto
  with h show "Review_objects_create db r = (Inr r, db\<lparr>Review_objects := r # Review_objects db\<rparr>)"
    by (simp add: Review_objects_create_def)
next
  assume "distinct (map (\<lambda>x. (Review.listing x, Review.user x)) (Review_objects db))"
  then show "distinct (map (\<lambda>x. (Review.listing x, Review.user x))
                     (Review_objects (snd (Review_objects_create db r))))"
    by (simp add: Review_objects_create_def)
qed

theorem one_review_per_user_and_listing_witness:
  "Review_objects_create db0 (review0 21 7 1 3)
     = (Inr (review0 21 7 1 3), db0\<lparr>Review_objects := [review0 21 7 1 3]\<rparr>)
   \<and> Review_objects_create (db0\<lparr>Review_objects := [review0 21 7 1 3]\<rparr>) (review0 22 7 1 5)
     = (Inl (IntegrityError (UniqueTogether [''listing'', ''user''])),
        db0\<lparr>Review_objects := [review0 21 7 1 3]\<rparr>)
   \<and> Review_objects_create (db0\<lparr>Review_objects := [review0 21 7 1 3]\<rparr>) (review0 22 7 2 5)
     = (Inr (review0 22 7 2 5),
        db0\<lparr>Review_objects := [review0 22 7 2 5, review0 21 7 1 3]\<rparr>)
   \<and> distinct (map (\<lambda>x. (Review.listing x, Review.user x))
        (Review_objects (snd (Review_objects_create
           (db0\<lparr>Review_objects := [review0 21 7 1 3]\<rparr>) (review0 22 7 1 5)))))"
proof -
  let ?db = "db0\<lparr>Review_objects := [review0 21 7 1 3]\<rparr>"
  have a: "Review_objects_create db0 (review0 21 7 1 3) = (Inr (review0 21 7 1 3), ?db)"
    using one_review_per_user_and_listing[of _ db0 "review0 21 7 1 3"]
    by (simp add: ex_defs)
  have b: "Review_objects_create ?db (review0 22 7 1 5)
     = (Inl (IntegrityError (UniqueTogether [''listing'', ''user''])), ?db)"
    using one_review_per_user_and_listing[of "review0 21 7 1 3" ?db "review0 22 7 1 5"]
    by (simp add: ex_defs)
  have c: "Review_objects_create ?db (review0 22 7 2 5)
     = (Inr (review0 22 7 2 5), db0\<lparr>Review_objects := [review0 22 7 2 5, review0 21 7 1 3]\<rparr>)"
    using one_review_per_user_and_listing[of _ ?db "review0 22 7 2 5"]
    by (simp add: ex_defs)
  have d: "distinct (map (\<lambda>x. (Review.listing x, Review.user x))
        (Review_objects (snd (Review_objects_create ?db (review0 22 7 1 5)))))"
    using one_review_per_user_and_listing[of _ ?db "review0 22 7 1 5"]
    by (simp add: ex_defs)
  from a b c d show ?thesis by simp
qed

section \<open>Rating range\<close>

text \<open>
  Claim C5.  For every integer rating \<open>r\<close>, the serializer's rating validation returns
  the rating exactly when \<open>1 \<le> r \<le> 5\<close> and otherwise fails with ValidationError; the
  model field's validators accept the same values.  In particular 0 and 6 fail, 1 and
  5 succeed.
\<close>

theorem rating_range:
  "(validate_rating r = Inr r) = (1 \<le> r \<and> r \<le> 5)
   \<and> (validate_rating r = Inl (ValidationError ''Rating must be between 1 and 5.''))
       = (\<not> (1 \<le> r \<and> r \<le> 5))
   \<and> (Review_rating_validators r = Inr ()) = (1 \<le> r \<and> r \<le> 5)
   \<and> (\<exists>m. validate_rating 0 = Inl (ValidationError m))
   \<and> (\<exists>m. validate_rating 6 = Inl (ValidationError m))
   \<and> validate_rating 1 = Inr 1
   \<and> validate_rating 5 = Inr 5"
  by (auto simp add: validate_rating_def Review_rating_validators_def run_validators_def
      MinValueValidator_def MaxValueValidator_def)

section \<open>Price bounds\<close>


end
